theory Spec2Isabelle
  imports Main "HOL-Library.Sublist"
begin

section \<open>The error registry of xerrorhandler (src/mod.ts)\<close>

text \<open>
  The module is one TypeScript class, \<^verbatim>\<open>ErrorRegistry\<close>, with two private fields
  (an array of entries and an array of observer callbacks) and a method decorator,
  \<^verbatim>\<open>catchError\<close>, that replaces a method by a variant that records what the method throws.

  The embedding is shallow. The registry's methods are HOL functions on an explicit state.
  Three aspects of the JavaScript the code is written in are made explicit, because the
  behaviour of the code depends on them:
  \<^item> arrays are objects: a field holds a reference to an array, \<^verbatim>\<open>push\<close> changes the array
    in place, and \<^verbatim>\<open>filter\<close> and the literal \<^verbatim>\<open>[]\<close> make a new array. The state therefore
    has a store of arrays, and the two fields hold addresses;
  \<^item> \<^verbatim>\<open>for (const x of arr)\<close> evaluates \<^verbatim>\<open>arr\<close> once and then walks that array object by
    index, comparing the index with the current length before every step;
  \<^item> the wrapped method and the observers are code of the caller. They can do anything with
    the state, throw, or not return. They are parameters of the model: functions from a
    state to an optional outcome and state, \<open>None\<close> standing for a call that never returns.
\<close>

subsection \<open>Values, entries and the state\<close>

type_synonym ref = nat
type_synonym addr = nat

text \<open>
  The JavaScript values the module handles. \<open>ErrorObj n m\<close> is an object whose \<^verbatim>\<open>name\<close> and
  \<^verbatim>\<open>message\<close> properties are the given strings (an \<^verbatim>\<open>Error\<close>, or any other object that has
  them); \<open>Obj r\<close> is an object that has neither property, known by its identity;
  \<open>ArrayRef a\<close> is a reference to an array of the store.
\<close>

datatype jsval = Undefined | Null | Bool bool | Str string | ErrorObj string string
  | Obj ref | ArrayRef addr

text \<open>How a call ends: it returns a value or it throws one.\<close>

datatype outcome = Returned jsval | Threw jsval

text \<open>The interface \<^verbatim>\<open>ErrorRegistryEntry\<close>. The timestamp is the reading of the clock.\<close>

record ErrorRegistryEntry =
  error :: jsval
  context' :: jsval
  constructor_name :: string
  method_name :: string
  timestamp :: nat

text \<open>
  The state: the two private fields of the registry (addresses of arrays), the store of
  entry arrays and of observer arrays, the next free address, the clock that
  \<^verbatim>\<open>new Date()\<close> reads, and the state of the caller's own program. An observer is a
  function object; the arrays hold references to them, and reference identity is what
  \<^verbatim>\<open>!==\<close> compares.
\<close>

record 'u world =
  errorRegistryEntries :: addr
  errorRegistryObservers :: addr
  entry_arrays :: "addr \<Rightarrow> ErrorRegistryEntry list"
  observer_arrays :: "addr \<Rightarrow> ref list"
  next_addr :: addr
  now :: nat
  user :: 'u

text \<open>Code of the caller, and the table that gives every observer reference its code.\<close>

type_synonym 'u code = "'u world \<Rightarrow> (outcome \<times> 'u world) option"
type_synonym 'u env = "ref \<Rightarrow> ErrorRegistryEntry \<Rightarrow> 'u code"

text \<open>
  A call of an observer made by the notification loop: which observer, with which
  entry, and how the call ended. The loop returns the list of the calls it made, so that
  theorems can speak about who was called, how often and in which order.
\<close>

type_synonym invocation = "ref \<times> ErrorRegistryEntry \<times> outcome"

text \<open>The contents of the two arrays the fields point to.\<close>

definition entries :: "'u world \<Rightarrow> ErrorRegistryEntry list" where
  "entries w = entry_arrays w (errorRegistryEntries w)"

definition observers :: "'u world \<Rightarrow> ref list" where
  "observers w = observer_arrays w (errorRegistryObservers w)"

subsection \<open>The class ErrorRegistry\<close>

text \<open>
  The field initialisers: each \<^verbatim>\<open>[]\<close> is a new array. The constructor body is empty.
  The arguments are the caller's state and the time.
\<close>

definition new_ErrorRegistry :: "'u \<Rightarrow> nat \<Rightarrow> 'u world" where
  "new_ErrorRegistry u t =
     \<lparr>errorRegistryEntries = 0, errorRegistryObservers = 1,
      entry_arrays = (\<lambda>_. []), observer_arrays = (\<lambda>_. []),
      next_addr = 2, now = t, user = u\<rparr>"

text \<open>\<^verbatim>\<open>getRegistry\<close> returns the array itself, not a copy.\<close>

definition getRegistry :: "'u world \<Rightarrow> jsval \<times> 'u world" where
  "getRegistry w = (ArrayRef (errorRegistryEntries w), w)"

text \<open>\<^verbatim>\<open>this.errorRegistryEntries = []\<close>: a new empty array; the old one is left as it is.\<close>

definition clearRegistry :: "'u world \<Rightarrow> 'u world" where
  "clearRegistry w =
     w\<lparr>errorRegistryEntries := next_addr w,
       entry_arrays := (entry_arrays w)(next_addr w := []),
       next_addr := Suc (next_addr w)\<rparr>"

text \<open>\<^verbatim>\<open>this.errorRegistryObservers.push(observer)\<close>: the array is extended in place.\<close>

definition registerObserver :: "ref \<Rightarrow> 'u world \<Rightarrow> 'u world" where
  "registerObserver observer w =
     w\<lparr>observer_arrays := (observer_arrays w)
         (errorRegistryObservers w := observer_arrays w (errorRegistryObservers w) @ [observer])\<rparr>"

text \<open>
  \<^verbatim>\<open>this.errorRegistryObservers = this.errorRegistryObservers.filter((o) => o !== observer)\<close>:
  \<^verbatim>\<open>filter\<close> builds a new array, and the field is set to it.
\<close>

definition unregisterObserver :: "ref \<Rightarrow> 'u world \<Rightarrow> 'u world" where
  "unregisterObserver observer w =
     w\<lparr>errorRegistryObservers := next_addr w,
       observer_arrays := (observer_arrays w)
         (next_addr w := filter (\<lambda>ob. ob \<noteq> observer) (observer_arrays w (errorRegistryObservers w))),
       next_addr := Suc (next_addr w)\<rparr>"

text \<open>
  \<^verbatim>\<open>notifyObservers\<close>. The loop walks the array at address \<open>a\<close>, the one the field pointed
  to when the loop began, from index \<open>i\<close>. Every step reads the length and the element
  from the current store, so what an observer pushed on this array is seen, and an
  array installed in the field meanwhile is not. An observer that throws ends the loop;
  one that does not return leaves the loop without a result.
\<close>

partial_function (option) notify_loop ::
  "'u env \<Rightarrow> addr \<Rightarrow> ErrorRegistryEntry \<Rightarrow> nat \<Rightarrow> 'u world
    \<Rightarrow> (outcome \<times> 'u world \<times> invocation list) option"
where
  "notify_loop env a entry i w =
     (if i < length (observer_arrays w a) then
        (let observer = observer_arrays w a ! i in
         case env observer entry w of
           None \<Rightarrow> None
         | Some (Threw x, w') \<Rightarrow> Some (Threw x, w', [(observer, entry, Threw x)])
         | Some (Returned v, w') \<Rightarrow>
             Option.bind (notify_loop env a entry (Suc i) w')
               (\<lambda>(out, w'', log). Some (out, w'', (observer, entry, Returned v) # log)))
      else Some (Returned Undefined, w, []))"

definition notifyObservers ::
  "'u env \<Rightarrow> ErrorRegistryEntry \<Rightarrow> 'u world \<Rightarrow> (outcome \<times> 'u world \<times> invocation list) option"
where
  "notifyObservers env entry w = notify_loop env (errorRegistryObservers w) entry 0 w"

text \<open>\<^verbatim>\<open>pushErrorToRegistry\<close>: build the entry, push it, notify.\<close>

definition pushErrorToRegistry ::
  "'u env \<Rightarrow> jsval \<Rightarrow> jsval \<Rightarrow> string \<Rightarrow> string \<Rightarrow> 'u world
    \<Rightarrow> (outcome \<times> 'u world \<times> invocation list) option"
where
  "pushErrorToRegistry env err ctx cname mname w =
     (let entry = \<lparr>error = err, context' = ctx, constructor_name = cname,
                   method_name = mname, timestamp = now w\<rparr>;
          w1 = w\<lparr>entry_arrays := (entry_arrays w)
                  (errorRegistryEntries w := entry_arrays w (errorRegistryEntries w) @ [entry])\<rparr>
      in notifyObservers env entry w1)"

subsection \<open>logRegistry\<close>

text \<open>
  Reading a property of a value. \<open>None\<close> is the \<^verbatim>\<open>TypeError\<close> that reading a property of
  \<^verbatim>\<open>undefined\<close> or \<^verbatim>\<open>null\<close> raises. An object with a name and a message is an \<open>ErrorObj\<close>;
  the other values of the model have neither, and the read gives \<^verbatim>\<open>undefined\<close>.
\<close>

fun get_prop :: "jsval \<Rightarrow> string \<Rightarrow> jsval option" where
  "get_prop Undefined p = None"
| "get_prop Null p = None"
| "get_prop (ErrorObj n m) p =
     Some (if p = ''name'' then Str n else if p = ''message'' then Str m else Undefined)"
| "get_prop v p = Some Undefined"

text \<open>
  What one call of \<^verbatim>\<open>console.error\<close> in \<^verbatim>\<open>logRegistry\<close> prints: the name and the message
  read from the error, and the other fields of the entry (\<open>log_rest\<close> holds the entry, of
  which the four fields other than the error are the ones printed). The text of the
  message of the \<^verbatim>\<open>TypeError\<close> is the engine's and is left empty.
\<close>

record log_record =
  log_error_name :: jsval
  log_error_message :: jsval
  log_rest :: ErrorRegistryEntry

definition type_error :: jsval where
  "type_error = ErrorObj ''TypeError'' []"

fun logRegistry_loop :: "ErrorRegistryEntry list \<Rightarrow> log_record list \<Rightarrow> outcome \<times> log_record list" where
  "logRegistry_loop [] printed = (Returned Undefined, printed)"
| "logRegistry_loop (entry # rest) printed =
     (case get_prop (error entry) ''name'' of
        None \<Rightarrow> (Threw type_error, printed)
      | Some n \<Rightarrow>
          (case get_prop (error entry) ''message'' of
             None \<Rightarrow> (Threw type_error, printed)
           | Some m \<Rightarrow>
               logRegistry_loop rest
                 (printed @ [\<lparr>log_error_name = n, log_error_message = m, log_rest = entry\<rparr>])))"

text \<open>The result is the outcome, what was printed, and the state, which is the one given.\<close>

definition logRegistry :: "'u world \<Rightarrow> outcome \<times> log_record list \<times> 'u world" where
  "logRegistry w =
     (let (out, printed) = logRegistry_loop (entry_arrays w (errorRegistryEntries w)) []
      in (out, printed, w))"

subsection \<open>The decorator catchError\<close>

text \<open>A function object: its \<^verbatim>\<open>name\<close> property and what a call with a receiver and arguments does.\<close>

record 'u js_function =
  name :: string
  apply' :: "jsval \<Rightarrow> jsval list \<Rightarrow> 'u code"

text \<open>
  The first argument of a method decorator. TypeScript's decorators (the legacy ones,
  whose signature the code uses) pass the prototype of the class for an instance method
  and the constructor function of the class for a static method. The code reads
  \<^verbatim>\<open>target.constructor.name\<close>: the \<^verbatim>\<open>constructor\<close> property of the prototype of a class
  \<open>C\<close> is \<open>C\<close>, whose name is the class name; the \<^verbatim>\<open>constructor\<close> property of \<open>C\<close> itself is
  found on \<^verbatim>\<open>Function.prototype\<close> and is \<^verbatim>\<open>Function\<close>. The code reads the name in the
  catch block, at every call, not when the decorator runs; the model carries with the
  target the name that this read gives, that is, it takes the \<^verbatim>\<open>constructor\<close> and \<^verbatim>\<open>name\<close>
  properties not to be redefined between the decoration and the call.
\<close>

datatype member_kind = InstanceMember | StaticMember

datatype target = Prototype string | Constructor string

fun decorator_target :: "string \<Rightarrow> member_kind \<Rightarrow> target" where
  "decorator_target class_name InstanceMember = Prototype class_name"
| "decorator_target class_name StaticMember = Constructor class_name"

fun constructor_name_of :: "target \<Rightarrow> string" where
  "constructor_name_of (Prototype class_name) = class_name"
| "constructor_name_of (Constructor class_name) = ''Function''"

text \<open>
  The function the decorator installs: \<^verbatim>\<open>try { return method.apply(this, args) } catch
  (error) { errorRegistry.pushErrorToRegistry(error, this, target.constructor.name,
  method.name) }\<close>. After the catch block the function ends, so it returns \<^verbatim>\<open>undefined\<close>;
  what \<^verbatim>\<open>pushErrorToRegistry\<close> throws is not caught. The third component of the result is
  the list of observer calls the notification made.
\<close>

definition wrapped ::
  "'u env \<Rightarrow> target \<Rightarrow> 'u js_function \<Rightarrow> jsval \<Rightarrow> jsval list \<Rightarrow> 'u world
    \<Rightarrow> (outcome \<times> 'u world \<times> invocation list) option"
where
  "wrapped env tgt method this args w =
     (case apply' method this args w of
        None \<Rightarrow> None
      | Some (Returned v, w') \<Rightarrow> Some (Returned v, w', [])
      | Some (Threw err, w') \<Rightarrow>
          (case pushErrorToRegistry env err this (constructor_name_of tgt) (name method) w' of
             None \<Rightarrow> None
           | Some (Returned _, w'', log) \<Rightarrow> Some (Returned Undefined, w'', log)
           | Some (Threw y, w'', log) \<Rightarrow> Some (Threw y, w'', log)))"

text \<open>
  The decorator: it takes the target, the property key (unused) and the descriptor, and
  returns the descriptor with the new function as its value. The new function is an
  anonymous function expression assigned to a property, so its \<^verbatim>\<open>name\<close> is empty.
\<close>

record 'u PropertyDescriptor =
  value' :: "'u js_function"

definition catchError ::
  "'u env \<Rightarrow> target \<Rightarrow> string \<Rightarrow> 'u PropertyDescriptor \<Rightarrow> 'u PropertyDescriptor"
where
  "catchError env tgt key descriptor =
     (let method = value' descriptor
      in descriptor\<lparr>value' :=
           \<lparr>name = [],
            apply' = (\<lambda>this args w.
              map_option (\<lambda>(out, w', log). (out, w')) (wrapped env tgt method this args w))\<rparr>\<rparr>)"

subsection \<open>The public interface as operations\<close>

text \<open>
  What a caller can do with a registry, as data, so that a sequence of calls can be
  run. \<open>CallWrapped tgt m this args\<close> calls the function that \<^verbatim>\<open>catchError\<close> installed for
  the method \<open>m\<close> decorated with target \<open>tgt\<close>.
\<close>

datatype 'u api_op =
    GetRegistry
  | ClearRegistry
  | RegisterObserver ref
  | UnregisterObserver ref
  | LogRegistry
  | CallWrapped target "'u js_function" jsval "jsval list"

fun exec :: "'u env \<Rightarrow> 'u api_op \<Rightarrow> 'u world \<Rightarrow> (outcome \<times> 'u world \<times> invocation list) option" where
  "exec env GetRegistry w = Some (Returned (fst (getRegistry w)), snd (getRegistry w), [])"
| "exec env ClearRegistry w = Some (Returned Undefined, clearRegistry w, [])"
| "exec env (RegisterObserver r) w = Some (Returned Undefined, registerObserver r w, [])"
| "exec env (UnregisterObserver r) w = Some (Returned Undefined, unregisterObserver r w, [])"
| "exec env LogRegistry w = Some (fst (logRegistry w), snd (snd (logRegistry w)), [])"
| "exec env (CallWrapped tgt m this args) w = wrapped env tgt m this args w"



subsection \<open>Assumptions about the caller's code\<close>

text \<open>
  The fields of the registry are private, so the caller's code reaches the arrays only
  through the methods of the class. The theorems that need it say so with the predicates
  below, each about every call of the code that returns or throws.

  \<open>append_only\<close>: an observer array that exists is only ever extended at its end
  (\<^verbatim>\<open>registerObserver\<close> pushes; \<^verbatim>\<open>unregisterObserver\<close> makes a new array), and no address
  is given back. \<open>returns_normally\<close>: every call of an observer returns.
  \<open>keeps_observers\<close>, \<open>keeps_entries\<close>: the code leaves the observer list, or the entry
  sequence, as it found it. \<open>never_registers env cb\<close>: the code pushes \<open>cb\<close> on no
  observer array.
\<close>

definition append_only :: "'u env \<Rightarrow> bool" where
  "append_only env \<longleftrightarrow>
     (\<forall>r e w out w' a. env r e w = Some (out, w') \<longrightarrow> a < next_addr w \<longrightarrow>
        a < next_addr w' \<and> prefix (observer_arrays w a) (observer_arrays w' a))"

definition returns_normally :: "'u env \<Rightarrow> bool" where
  "returns_normally env \<longleftrightarrow> (\<forall>r e w. \<exists>v w'. env r e w = Some (Returned v, w'))"

definition keeps_observers :: "'u env \<Rightarrow> bool" where
  "keeps_observers env \<longleftrightarrow>
     (\<forall>r e w out w'. env r e w = Some (out, w') \<longrightarrow>
        observer_arrays w' = observer_arrays w \<and> errorRegistryObservers w' = errorRegistryObservers w)"

definition keeps_entries :: "'u env \<Rightarrow> bool" where
  "keeps_entries env \<longleftrightarrow>
     (\<forall>r e w out w'. env r e w = Some (out, w') \<longrightarrow>
        entry_arrays w' = entry_arrays w \<and> errorRegistryEntries w' = errorRegistryEntries w)"



definition never_registers :: "'u env \<Rightarrow> ref \<Rightarrow> bool" where
  "never_registers env cb \<longleftrightarrow>
     (\<forall>r e w out w' a. env r e w = Some (out, w') \<longrightarrow> a < next_addr w \<longrightarrow>
        cb \<notin> set (observer_arrays w a) \<longrightarrow> cb \<notin> set (observers w) \<longrightarrow>
        a < next_addr w' \<and> cb \<notin> set (observer_arrays w' a) \<and> cb \<notin> set (observers w'))"

text \<open>
  The entry that the wrapper builds when the method \<open>method\<close>, decorated with target \<open>tgt\<close>
  and called on \<open>this\<close>, throws \<open>x\<close> and leaves the state \<open>w\<close>; and the state after the entry
  has been pushed on the entry array.
\<close>

definition caught_entry :: "jsval \<Rightarrow> jsval \<Rightarrow> target \<Rightarrow> 'u js_function \<Rightarrow> 'u world \<Rightarrow> ErrorRegistryEntry" where
  "caught_entry x this tgt method w =
     \<lparr>error = x, context' = this, constructor_name = constructor_name_of tgt,
      method_name = name method, timestamp = now w\<rparr>"

definition record_entry :: "ErrorRegistryEntry \<Rightarrow> 'u world \<Rightarrow> 'u world" where
  "record_entry entry w =
     w\<lparr>entry_arrays := (entry_arrays w)(errorRegistryEntries w := entries w @ [entry])\<rparr>"




subsection \<open>Scenarios\<close>


definition riskyOperation :: "unit js_function" where
  "riskyOperation =
     \<lparr>name = ''riskyOperation'',
      apply' = (\<lambda>this args w. Some (Threw (ErrorObj ''Error'' ''Something went wrong''), w))\<rparr>"

text \<open>Observers that do nothing.\<close>

definition idle_env :: "unit env" where
  "idle_env r e w = Some (Returned Undefined, w)"

text \<open>
  Tables of observers. In \<open>failing_env\<close> observer 10 throws. In \<open>swapping_env\<close> observer 20
  unregisters a callback that was never registered and then registers observer 21. In
  \<open>registering_env\<close> observer 30 registers observer 31. In \<open>unregistering_env\<close> observer 40
  unregisters observer 42 and observer 41 throws. In \<open>detaching_env\<close> observer 50
  unregisters observer 51. Every other observer returns at once.
\<close>

definition failing_env :: "unit env" where
  "failing_env r e w =
     (if r = 10 then Some (Threw (Str ''observer failed''), w) else Some (Returned Undefined, w))"

definition swapping_env :: "unit env" where
  "swapping_env r e w =
     (if r = 20 then Some (Returned Undefined, registerObserver 21 (unregisterObserver 99 w))
      else Some (Returned Undefined, w))"

definition registering_env :: "unit env" where
  "registering_env r e w =
     (if r = 30 then Some (Returned Undefined, registerObserver 31 w)
      else Some (Returned Undefined, w))"

definition unregistering_env :: "unit env" where
  "unregistering_env r e w =
     (if r = 40 then Some (Returned Undefined, unregisterObserver 42 w)
      else if r = 41 then Some (Threw (Str ''observer failed''), w)
      else Some (Returned Undefined, w))"

definition detaching_env :: "unit env" where
  "detaching_env r e w =
     (if r = 50 then Some (Returned Undefined, unregisterObserver 51 w)
      else Some (Returned Undefined, w))"

text \<open>An entry to notify observers of.\<close>

definition sample_entry :: ErrorRegistryEntry where
  "sample_entry = \<lparr>error = ErrorObj ''Error'' ''boom'', context' = Obj 1,
     constructor_name = ''T'', method_name = ''riskyOperation'', timestamp = 0\<rparr>"





text \<open>
  Two more tables of observers. In \<open>clearing_env\<close> observer 70 calls \<^verbatim>\<open>clearRegistry\<close> and
  throws. In \<open>unregister_first_env\<close> observer 30 does what it does in \<open>registering_env\<close>,
  after unregistering a callback that was never registered.
\<close>

definition clearing_env :: "unit env" where
  "clearing_env r e w =
     (if r = 70 then Some (Threw (Str ''observer failed''), clearRegistry w)
      else Some (Returned Undefined, w))"


section \<open>Lemmas\<close>

subsection \<open>Basic facts\<close>

lemma catchError_apply:
  "apply' (value' (catchError env tgt key descriptor)) this args w =
     map_option (\<lambda>(out, w', log). (out, w')) (wrapped env tgt (value' descriptor) this args w)"
  by (simp add: catchError_def Let_def)


lemma observers_unregisterObserver:
  "observers (unregisterObserver cb w) = filter (\<lambda>ob. ob \<noteq> cb) (observers w)"
  by (simp add: unregisterObserver_def observers_def)

lemma unregisterObserver_old_array:
  "a < next_addr w \<Longrightarrow> observer_arrays (unregisterObserver cb w) a = observer_arrays w a"
  by (simp add: unregisterObserver_def)

lemma registerObserver_live_array:
  "observer_arrays (registerObserver r w) (errorRegistryObservers w) =
     observer_arrays w (errorRegistryObservers w) @ [r]"
  by (simp add: registerObserver_def)

lemma prefix_drop: "prefix xs ys \<Longrightarrow> prefix (drop n xs) (drop n ys)"
  by (auto simp: prefix_def)

subsection \<open>The notification loop\<close>

lemmas notify_loop_induct = notify_loop.raw_induct[rotated 1, consumes 1, case_names step]

lemma notify_loop_stop:
  "\<not> i < length (observer_arrays w a) \<Longrightarrow> notify_loop env a e i w = Some (Returned Undefined, w, [])"
  by (subst notify_loop.simps) simp

lemma notify_loop_throw:
  "i < length (observer_arrays w a) \<Longrightarrow> env (observer_arrays w a ! i) e w = Some (Threw x, w')
    \<Longrightarrow> notify_loop env a e i w = Some (Threw x, w', [(observer_arrays w a ! i, e, Threw x)])"
  by (subst notify_loop.simps) simp

lemma notify_loop_return:
  "i < length (observer_arrays w a) \<Longrightarrow> env (observer_arrays w a ! i) e w = Some (Returned v, w')
    \<Longrightarrow> notify_loop env a e i w =
        Option.bind (notify_loop env a e (Suc i) w')
          (\<lambda>(out, w'', log). Some (out, w'', (observer_arrays w a ! i, e, Returned v) # log))"
  by (subst notify_loop.simps) simp

lemma notify_loop_diverge:
  "i < length (observer_arrays w a) \<Longrightarrow> env (observer_arrays w a ! i) e w = None
    \<Longrightarrow> notify_loop env a e i w = None"
  by (subst notify_loop.simps) simp

lemma prefix_nth: "prefix xs ys \<Longrightarrow> i < length xs \<Longrightarrow> ys ! i = xs ! i"
  by (auto simp: prefix_def nth_append)

lemma prefix_drop_Cons:
  "prefix xs ys \<Longrightarrow> i < length xs \<Longrightarrow> drop i ys = xs ! i # drop (Suc i) ys"
  by (metis Cons_nth_drop_Suc prefix_nth prefix_length_le less_le_trans)

lemma notify_loop_visits:
  assumes "notify_loop env a e i w = Some r" "append_only env" "a < next_addr w"
  shows "a < next_addr (fst (snd r)) \<and>
         prefix (observer_arrays w a) (observer_arrays (fst (snd r)) a) \<and>
         prefix (map fst (snd (snd r))) (drop i (observer_arrays (fst (snd r)) a)) \<and>
         ((\<exists>v. fst r = Returned v) \<longrightarrow>
            map fst (snd (snd r)) = drop i (observer_arrays (fst (snd r)) a))"
  using assms
proof (induction env a e i w r rule: notify_loop_induct)
  case (step loop env a entry i w r)
  show ?case
  proof (cases "i < length (observer_arrays w a)")
    case False
    with step(2,4) show ?thesis by auto
  next
    case True
    show ?thesis
    proof (cases "env (observer_arrays w a ! i) entry w")
      case None
      with True step(2) show ?thesis by simp
    next
      case (Some p)
      obtain out w1 where p: "p = (out, w1)" by (cases p)
      from Some p step(3,4) have a1: "a < next_addr w1"
        and p1: "prefix (observer_arrays w a) (observer_arrays w1 a)"
        unfolding append_only_def by blast+
      show ?thesis
      proof (cases out)
        case (Threw x)
        with True Some p step(2) have r: "r = (Threw x, w1, [(observer_arrays w a ! i, entry, Threw x)])"
          by simp
        show ?thesis unfolding r using a1 p1 prefix_drop_Cons[OF p1 True] by simp
      next
        case (Returned v)
        with True Some p step(2) obtain r' where
          r': "loop env a entry (Suc i) w1 = Some r'" and
          r: "r = (fst r', fst (snd r'), (observer_arrays w a ! i, entry, Returned v) # snd (snd r'))"
          by (auto simp: bind_eq_Some_conv)
        from step(1)[OF r' step(3) a1] have
          ih1: "a < next_addr (fst (snd r'))" and
          ih2: "prefix (observer_arrays w1 a) (observer_arrays (fst (snd r')) a)" and
          ih3: "prefix (map fst (snd (snd r'))) (drop (Suc i) (observer_arrays (fst (snd r')) a))" and
          ih4: "(\<exists>v. fst r' = Returned v) \<longrightarrow>
                 map fst (snd (snd r')) = drop (Suc i) (observer_arrays (fst (snd r')) a)"
          by blast+
        have p2: "prefix (observer_arrays w a) (observer_arrays (fst (snd r')) a)"
          using p1 ih2 by (rule prefix_order.trans)
        show ?thesis unfolding r using ih1 p2 ih3 ih4 prefix_drop_Cons[OF p2 True] by simp
      qed
    qed
  qed
qed

lemma notify_loop_total:
  assumes "returns_normally env" "keeps_observers env"
  shows "\<exists>w' log. notify_loop env a e i w = Some (Returned Undefined, w', log) \<and>
           map fst log = drop i (observer_arrays w a) \<and>
           observer_arrays w' = observer_arrays w \<and>
           errorRegistryObservers w' = errorRegistryObservers w"
proof (induction "length (observer_arrays w a) - i" arbitrary: i w)
  case 0
  then have "\<not> i < length (observer_arrays w a)" by simp
  from notify_loop_stop[OF this] 0 show ?case by simp
next
  case (Suc n)
  then have lt: "i < length (observer_arrays w a)" by simp
  from assms(1) obtain v w1 where c: "env (observer_arrays w a ! i) e w = Some (Returned v, w1)"
    unfolding returns_normally_def by blast
  from assms(2) c have k: "observer_arrays w1 = observer_arrays w"
    "errorRegistryObservers w1 = errorRegistryObservers w"
    unfolding keeps_observers_def by blast+
  from Suc(2) k have "n = length (observer_arrays w1 a) - Suc i" by simp
  from Suc(1)[OF this] obtain w' log where
    r: "notify_loop env a e (Suc i) w1 = Some (Returned Undefined, w', log)"
      "map fst log = drop (Suc i) (observer_arrays w1 a)"
      "observer_arrays w' = observer_arrays w1"
      "errorRegistryObservers w' = errorRegistryObservers w1" by blast
  show ?case
    using notify_loop_return[where env=env, OF lt c] r k Cons_nth_drop_Suc[OF lt] by simp
qed


lemma notify_loop_shape:
  assumes "notify_loop env a e i w = Some r"
  shows "(\<forall>x \<in> set (snd (snd r)). fst (snd x) = e) \<and>
         (case fst r of
            Returned v \<Rightarrow> v = Undefined \<and> (\<forall>x \<in> set (snd (snd r)). \<exists>u. snd (snd x) = Returned u)
          | Threw y \<Rightarrow> snd (snd r) \<noteq> [] \<and> snd (snd (last (snd (snd r)))) = Threw y \<and>
               (\<forall>x \<in> set (butlast (snd (snd r))). \<exists>u. snd (snd x) = Returned u))"
  using assms
proof (induction env a e i w r rule: notify_loop_induct)
  case (step loop env a entry i w r)
  show ?case
  proof (cases "i < length (observer_arrays w a)")
    case False
    with step(2) show ?thesis by auto
  next
    case True
    show ?thesis
    proof (cases "env (observer_arrays w a ! i) entry w")
      case None
      with True step(2) show ?thesis by simp
    next
      case (Some p)
      obtain out w' where p: "p = (out, w')" by (cases p)
      show ?thesis
      proof (cases out)
        case (Threw x)
        with True Some p step(2) show ?thesis by auto
      next
        case (Returned v)
        with True Some p step(2) obtain r' where
          r': "loop env a entry (Suc i) w' = Some r'" and
          r: "r = (fst r', fst (snd r'), (observer_arrays w a ! i, entry, Returned v) # snd (snd r'))"
          by (auto simp: bind_eq_Some_conv)
        from step(1)[OF r'] show ?thesis unfolding r
          by (cases "fst r'") (auto split: if_splits)
      qed
    qed
  qed
qed

lemma notify_loop_keeps_entries:
  assumes "notify_loop env a e i w = Some r" "keeps_entries env"
  shows "entry_arrays (fst (snd r)) = entry_arrays w \<and>
         errorRegistryEntries (fst (snd r)) = errorRegistryEntries w"
  using assms
proof (induction env a e i w r rule: notify_loop_induct)
  case (step loop env a entry i w r)
  show ?case
  proof (cases "i < length (observer_arrays w a)")
    case False
    with step(2) show ?thesis by auto
  next
    case True
    show ?thesis
    proof (cases "env (observer_arrays w a ! i) entry w")
      case None
      with True step(2) show ?thesis by simp
    next
      case (Some p)
      obtain out w1 where p: "p = (out, w1)" by (cases p)
      from Some p step(3) have k: "entry_arrays w1 = entry_arrays w"
        "errorRegistryEntries w1 = errorRegistryEntries w"
        unfolding keeps_entries_def by blast+
      show ?thesis
      proof (cases out)
        case (Threw x)
        with True Some p step(2) k show ?thesis by auto
      next
        case (Returned v)
        with True Some p step(2) obtain r' where
          r': "loop env a entry (Suc i) w1 = Some r'" and
          r: "fst (snd r) = fst (snd r')"
          by (auto simp: bind_eq_Some_conv)
        from step(1)[OF r' step(3)] k r show ?thesis by simp
      qed
    qed
  qed
qed



lemma wrapped_throw:
  assumes "apply' method this args w = Some (Threw x, w1)"
  shows "wrapped env tgt method this args w =
           notifyObservers env (caught_entry x this tgt method w1)
             (record_entry (caught_entry x this tgt method w1) w1)"
proof (cases "notifyObservers env (caught_entry x this tgt method w1)
             (record_entry (caught_entry x this tgt method w1) w1)")
  case None
  with assms show ?thesis
    by (simp add: wrapped_def pushErrorToRegistry_def caught_entry_def record_entry_def entries_def Let_def)
next
  case (Some r)
  then have "notify_loop env (errorRegistryObservers (record_entry (caught_entry x this tgt method w1) w1))
      (caught_entry x this tgt method w1) 0 (record_entry (caught_entry x this tgt method w1) w1) = Some r"
    by (simp add: notifyObservers_def)
  from notify_loop_shape[OF this] have "\<And>v. fst r = Returned v \<Longrightarrow> v = Undefined" by simp
  then have "(case r of (Returned _, w'', log) \<Rightarrow> Some (Returned Undefined, w'', log)
               | (Threw y, w'', log) \<Rightarrow> Some (Threw y, w'', log)) = Some r"
    by (cases r; cases "fst r") auto
  with assms Some show ?thesis
    by (simp add: wrapped_def pushErrorToRegistry_def caught_entry_def record_entry_def entries_def Let_def)
qed

lemma notifyObservers_visits:
  assumes "notifyObservers env e w = Some (out, w', log)" "append_only env"
    "errorRegistryObservers w < next_addr w"
  shows "prefix (observers w) (observer_arrays w' (errorRegistryObservers w))"
    "prefix (map fst log) (observer_arrays w' (errorRegistryObservers w))"
    "(\<exists>v. out = Returned v) \<Longrightarrow> map fst log = observer_arrays w' (errorRegistryObservers w)"
  using notify_loop_visits[of env "errorRegistryObservers w" e 0 w "(out, w', log)"] assms
  by (simp_all add: notifyObservers_def observers_def)

subsection \<open>The catch path and scripts\<close>







subsection \<open>Facts about the scenarios\<close>

lemma idle_env_facts:
  "returns_normally idle_env" "keeps_observers idle_env" "keeps_entries idle_env"
  "append_only idle_env" "never_registers idle_env cb"
  by (simp_all add: returns_normally_def keeps_observers_def keeps_entries_def append_only_def
      never_registers_def idle_env_def)


lemma failing_env_facts: "keeps_entries failing_env" "append_only failing_env"
  by (simp_all add: keeps_entries_def append_only_def failing_env_def split: if_splits)

lemma registering_env_facts: "append_only registering_env"
  by (auto simp: append_only_def registering_env_def registerObserver_def split: if_splits)

lemma detaching_env_facts: "append_only detaching_env"
  by (auto simp: append_only_def detaching_env_def unregisterObserver_def split: if_splits)

lemmas scenario_defs = wrapped_def pushErrorToRegistry_def notifyObservers_def notify_loop.simps
  registerObserver_def unregisterObserver_def riskyOperation_def new_ErrorRegistry_def
  observers_def entries_def Let_def

section \<open>The claims\<close>

subsection \<open>A wrapped method that throws\<close>

text \<open>
  C1, as amended. Let the original body of a wrapped method throw \<open>x\<close> and leave the state
  \<open>w1\<close>. Then the call of the function that \<^verbatim>\<open>catchError\<close> installed is exactly this: the
  entry with error \<open>x\<close> (and the receiver, the constructor name read from the target, the
  name of the method and the time) is pushed on the entry array, and the observers are
  notified of it in the state that has the entry; the outcome of the call is the outcome
  of that notification, and a value it returns is \<^verbatim>\<open>undefined\<close>. If every observer returns
  and none changes the observer list, the call does return \<^verbatim>\<open>undefined\<close>: \<open>x\<close> does not
  reach the caller, and the observers that were called are the registered ones, in order.
\<close>

theorem catchError_catch_path:
  assumes "apply' (value' descriptor) this args w = Some (Threw x, w1)"
  shows "wrapped env tgt (value' descriptor) this args w =
           notifyObservers env (caught_entry x this tgt (value' descriptor) w1)
             (record_entry (caught_entry x this tgt (value' descriptor) w1) w1) \<and>
         error (caught_entry x this tgt (value' descriptor) w1) = x \<and>
         entries (record_entry (caught_entry x this tgt (value' descriptor) w1) w1) =
           entries w1 @ [caught_entry x this tgt (value' descriptor) w1] \<and>
         (wrapped env tgt (value' descriptor) this args w = Some (Returned v, w2', log') \<longrightarrow>
            v = Undefined) \<and>
         (returns_normally env \<and> keeps_observers env \<longrightarrow>
            (\<exists>w2 log.
               wrapped env tgt (value' descriptor) this args w = Some (Returned Undefined, w2, log) \<and>
               apply' (value' (catchError env tgt key descriptor)) this args w
                 = Some (Returned Undefined, w2) \<and>
               map fst log = observers w1))"
proof -
  let ?e = "caught_entry x this tgt (value' descriptor) w1"
  let ?w = "record_entry ?e w1"
  have a: "wrapped env tgt (value' descriptor) this args w = notifyObservers env ?e ?w"
    using assms by (rule wrapped_throw)
  have b: "error ?e = x" by (simp add: caught_entry_def)
  have c: "entries ?w = entries w1 @ [?e]" by (simp add: record_entry_def entries_def)
  have d: "\<exists>w2 log.
               wrapped env tgt (value' descriptor) this args w = Some (Returned Undefined, w2, log) \<and>
               apply' (value' (catchError env tgt key descriptor)) this args w
                 = Some (Returned Undefined, w2) \<and>
               map fst log = observers w1"
    if h: "returns_normally env" "keeps_observers env"
  proof -
    from notify_loop_total[OF h, of "errorRegistryObservers ?w" ?e 0 ?w]
    obtain w2 log where "notifyObservers env ?e ?w = Some (Returned Undefined, w2, log)"
      "map fst log = observers ?w"
      by (auto simp: notifyObservers_def observers_def)
    moreover have "observers ?w = observers w1" by (simp add: record_entry_def observers_def)
    ultimately show ?thesis using a by (simp add: catchError_apply)
  qed
  have u: "v = Undefined"
    if "wrapped env tgt (value' descriptor) this args w = Some (Returned v, w2', log')"
  proof -
    from that a have "notify_loop env (errorRegistryObservers ?w) ?e 0 ?w = Some (Returned v, w2', log')"
      by (simp add: notifyObservers_def)
    from notify_loop_shape[OF this] show ?thesis by simp
  qed
  from a b c u d show ?thesis by blast
qed

text \<open>
  The theorem at a registry with observers 1 and 2 that do nothing and the method of the
  tests, which throws: the call returns \<^verbatim>\<open>undefined\<close> and observers 1 and 2 were called.
\<close>

theorem catchError_catch_path_witness:
  "apply' (value' \<lparr>value' = riskyOperation\<rparr>) (Obj 7) []
     (registerObserver 2 (registerObserver 1 (new_ErrorRegistry () 0)))
     = Some (Threw (ErrorObj ''Error'' ''Something went wrong''),
             registerObserver 2 (registerObserver 1 (new_ErrorRegistry () 0))) \<and>
   returns_normally idle_env \<and> keeps_observers idle_env \<and>
   map_option fst (wrapped idle_env (Prototype ''MockClass'') (value' \<lparr>value' = riskyOperation\<rparr>) (Obj 7) []
     (registerObserver 2 (registerObserver 1 (new_ErrorRegistry () 0)))) = Some (Returned Undefined) \<and>
   map_option (map fst \<circ> snd \<circ> snd)
     (wrapped idle_env (Prototype ''MockClass'') (value' \<lparr>value' = riskyOperation\<rparr>) (Obj 7) []
       (registerObserver 2 (registerObserver 1 (new_ErrorRegistry () 0)))) = Some [1, 2]"
proof -
  let ?w = "registerObserver 2 (registerObserver 1 (new_ErrorRegistry () 0))"
  have h: "apply' (value' \<lparr>value' = riskyOperation\<rparr>) (Obj 7) [] ?w
     = Some (Threw (ErrorObj ''Error'' ''Something went wrong''), ?w)"
    by (simp add: riskyOperation_def)
  have o: "observers ?w = [1, 2]"
    by (simp add: observers_def registerObserver_def new_ErrorRegistry_def)
  from catchError_catch_path[OF h, where env = idle_env and tgt = "Prototype ''MockClass''"
      and key = "''riskyOperation''"]
    idle_env_facts(1,2)
  obtain w2 log where
    "wrapped idle_env (Prototype ''MockClass'') (value' \<lparr>value' = riskyOperation\<rparr>) (Obj 7) [] ?w
       = Some (Returned Undefined, w2, log)" "map fst log = observers ?w"
    by blast
  with h o idle_env_facts(1,2) show ?thesis by simp
qed

text \<open>
  C1 as stated, for every invocation, does not hold: with one registered observer that
  throws, the body throws an \<^verbatim>\<open>Error\<close> and the wrapped call does not return \<^verbatim>\<open>undefined\<close>;
  it throws what the observer threw.
\<close>

theorem catchError_observer_throws_counterexample:
  "apply' riskyOperation (Obj 1) [] (registerObserver 10 (new_ErrorRegistry () 0))
     = Some (Threw (ErrorObj ''Error'' ''Something went wrong''),
             registerObserver 10 (new_ErrorRegistry () 0)) \<and>
   map_option fst
     (apply' (value' (catchError failing_env (Prototype ''MockClass'') ''riskyOperation''
                \<lparr>value' = riskyOperation\<rparr>))
        (Obj 1) [] (registerObserver 10 (new_ErrorRegistry () 0)))
     = Some (Threw (Str ''observer failed''))"
  by (simp add: catchError_apply wrapped_def pushErrorToRegistry_def notifyObservers_def
      notify_loop.simps failing_env_def registerObserver_def riskyOperation_def
      new_ErrorRegistry_def Let_def option.map_comp comp_def)

subsection \<open>A wrapped method that returns\<close>



subsection \<open>The names in an entry\<close>

text \<open>
  For an instance method of a class that is not renamed after the decoration, the names
  are as the documentation of the entry says, whatever the receiver and the arguments:
  the constructor name is the name of the class whose prototype was decorated, and the
  method name is the name of the wrapped function.
\<close>

lemma instance_method_entry_names:
  assumes "apply' method this args w = Some (Threw x, w1)"
  shows "wrapped env (decorator_target class_name InstanceMember) method this args w =
           notifyObservers env (caught_entry x this (Prototype class_name) method w1)
             (record_entry (caught_entry x this (Prototype class_name) method w1) w1) \<and>
         constructor_name (caught_entry x this (Prototype class_name) method w1) = class_name \<and>
         method_name (caught_entry x this (Prototype class_name) method w1) = name method"
  using wrapped_throw[OF assms, of env "Prototype class_name"] by (simp add: caught_entry_def)

text \<open>
  C3. The claim fails for a static method. The decorator is then given the constructor
  function of the class, and \<^verbatim>\<open>target.constructor.name\<close> is \<^verbatim>\<open>Function\<close>: the entry recorded
  for the static method \<open>riskyOperation\<close> of the class \<open>MockClass\<close> has the constructor
  name \<^verbatim>\<open>Function\<close>, not \<^verbatim>\<open>MockClass\<close>.
\<close>

theorem static_method_constructor_name:
  "map_option (map constructor_name \<circ> entries \<circ> fst \<circ> snd)
     (wrapped idle_env (decorator_target ''MockClass'' StaticMember) riskyOperation (Obj 1) []
        (new_ErrorRegistry () 0)) = Some [''Function'']"
  by (simp add: wrapped_def pushErrorToRegistry_def notifyObservers_def notify_loop.simps
      riskyOperation_def new_ErrorRegistry_def entries_def Let_def)

subsection \<open>Who is notified\<close>

text \<open>
  C4, as amended. Let the caller's code respect \<open>append_only\<close>, and let the notification
  of an entry \<open>e\<close> end without any observer throwing. Then the observers that were called
  are exactly the contents, at the end, of the array the loop walked, in order, one call
  for each position; the registrations present when the notification began come first,
  in registration order, one call each (a callback registered twice is called twice);
  every call was given \<open>e\<close>; and if the array was not extended meanwhile, nobody else
  was called.
\<close>

theorem notifyObservers_registration_order:
  assumes "append_only env" "errorRegistryObservers w < next_addr w"
    "notifyObservers env e w = Some (Returned v, w', log)"
  shows "map fst log = observer_arrays w' (errorRegistryObservers w) \<and>
         prefix (observers w) (map fst log) \<and>
         (\<forall>c \<in> set log. fst (snd c) = e) \<and>
         (observer_arrays w' (errorRegistryObservers w) = observers w \<longrightarrow> map fst log = observers w)"
proof -
  from notifyObservers_visits[OF assms(3,1,2)]
  have 1: "map fst log = observer_arrays w' (errorRegistryObservers w)"
    and 2: "prefix (observers w) (observer_arrays w' (errorRegistryObservers w))" by blast+
  from notify_loop_shape[of env "errorRegistryObservers w" e 0 w "(Returned v, w', log)"] assms(3)
  have 3: "\<forall>c \<in> set log. fst (snd c) = e" by (simp add: notifyObservers_def)
  from 1 2 3 show ?thesis by simp
qed

text \<open>
  The theorem at a registry with the one observer 30, which registers observer 31 when
  it is called: observer 30 and then observer 31 are called, each with the entry.
\<close>

theorem notifyObservers_registration_order_witness:
  "append_only registering_env \<and>
   errorRegistryObservers (registerObserver 30 (new_ErrorRegistry () 0))
     < next_addr (registerObserver 30 (new_ErrorRegistry () 0)) \<and>
   observers (registerObserver 30 (new_ErrorRegistry () 0)) = [30] \<and>
   map_option fst (notifyObservers registering_env sample_entry
     (registerObserver 30 (new_ErrorRegistry () 0))) = Some (Returned Undefined) \<and>
   map_option (map fst \<circ> snd \<circ> snd) (notifyObservers registering_env sample_entry
     (registerObserver 30 (new_ErrorRegistry () 0))) = Some [30, 31] \<and>
   map_option (map (fst \<circ> snd) \<circ> snd \<circ> snd) (notifyObservers registering_env sample_entry
     (registerObserver 30 (new_ErrorRegistry () 0))) = Some [sample_entry, sample_entry]"
proof -
  let ?w = "registerObserver 30 (new_ErrorRegistry () 0)"
  have wf: "errorRegistryObservers ?w < next_addr ?w"
    by (simp add: registerObserver_def new_ErrorRegistry_def)
  have o: "observers ?w = [30]"
    by (simp add: observers_def registerObserver_def new_ErrorRegistry_def)
  let ?log = "[(30, sample_entry, Returned Undefined), (31, sample_entry, Returned Undefined)]"
  obtain w' where r: "notifyObservers registering_env sample_entry ?w = Some (Returned Undefined, w', ?log)"
    by (simp add: notifyObservers_def notify_loop.simps registering_env_def registerObserver_def
        new_ErrorRegistry_def)
  from notifyObservers_registration_order[OF registering_env_facts wf r]
  have p: "prefix (observers ?w) (map fst ?log)" by blast
  with registering_env_facts wf o r show ?thesis by simp
qed

text \<open>
  C4 as stated, for every entry, does not hold: with observers 10 and 11 registered, and
  10 throwing, the notification ends with the throw and observer 11 is never called.
\<close>

theorem notifyObservers_registration_order_counterexample:
  "observers (registerObserver 11 (registerObserver 10 (new_ErrorRegistry () 0))) = [10, 11] \<and>
   map_option fst (notifyObservers failing_env sample_entry
     (registerObserver 11 (registerObserver 10 (new_ErrorRegistry () 0))))
     = Some (Threw (Str ''observer failed'')) \<and>
   map_option (map fst \<circ> snd \<circ> snd) (notifyObservers failing_env sample_entry
     (registerObserver 11 (registerObserver 10 (new_ErrorRegistry () 0)))) = Some [10]"
  by (simp add: observers_def notifyObservers_def notify_loop.simps failing_env_def
      registerObserver_def new_ErrorRegistry_def)

subsection \<open>What changes the entry sequence and the observer list\<close>




subsection \<open>clearRegistry\<close>

text \<open>
  C6. Whatever the state, after \<^verbatim>\<open>clearRegistry\<close> the entry sequence is empty. The
  observer field, the observer arrays, the clock and the caller's state are as before;
  the store of entry arrays differs only at the new array, so the old array is intact;
  and the call invokes no observer: its list of observer calls is empty for every table
  of observers.
\<close>

theorem clearRegistry_empties_and_frames:
  "entries (clearRegistry w) = [] \<and>
   observers (clearRegistry w) = observers w \<and>
   errorRegistryObservers (clearRegistry w) = errorRegistryObservers w \<and>
   observer_arrays (clearRegistry w) = observer_arrays w \<and>
   entry_arrays (clearRegistry w) = (entry_arrays w)(next_addr w := []) \<and>
   now (clearRegistry w) = now w \<and>
   user (clearRegistry w) = user w \<and>
   exec env ClearRegistry w = Some (Returned Undefined, clearRegistry w, [])"
  by (simp add: clearRegistry_def entries_def observers_def)

subsection \<open>unregisterObserver\<close>




subsection \<open>An observer that throws\<close>

text \<open>
  C8, as amended. Let the body of a wrapped method throw, and let the call of an
  observer \<open>r\<close> during the notification throw \<open>y\<close>. Then the wrapped call throws \<open>y\<close> to
  its caller; the call of \<open>r\<close> is the last observer call of the notification, so no
  later observer is called, and all calls before it returned; the entry \<open>r\<close> was given
  is the caught entry; and, if no observer changes the entry sequence, the entry stays
  in the registry: the sequence at the end is the one the body left, followed by the
  entry. The last conjunct is the step of the loop itself: at an observer that throws,
  the loop ends at once with that throw, in the state the observer left.
\<close>

theorem observer_throw_propagates:
  assumes body: "apply' method this args w = Some (Threw x, w1)"
    and res: "wrapped env tgt method this args w = Some (out, w', log)"
    and thr: "(r, e, Threw y) \<in> set log"
  shows "out = Threw y \<and> last log = (r, e, Threw y) \<and>
         (\<forall>c \<in> set (butlast log). \<exists>v. snd (snd c) = Returned v) \<and>
         e = caught_entry x this tgt method w1 \<and>
         (keeps_entries env \<longrightarrow> entries w' = entries w1 @ [caught_entry x this tgt method w1]) \<and>
         (i < length (observer_arrays w0 a) \<and>
          env (observer_arrays w0 a ! i) e0 w0 = Some (Threw y0, w0') \<longrightarrow>
            notify_loop env a e0 i w0 = Some (Threw y0, w0', [(observer_arrays w0 a ! i, e0, Threw y0)]))"
proof -
  let ?e = "caught_entry x this tgt method w1"
  let ?w = "record_entry ?e w1"
  from wrapped_throw[OF body, of env tgt] res
  have n: "notify_loop env (errorRegistryObservers ?w) ?e 0 ?w = Some (out, w', log)"
    by (simp add: notifyObservers_def)
  from notify_loop_shape[OF n] have
    all_e: "\<forall>c \<in> set log. fst (snd c) = ?e" by simp
  from notify_loop_shape[OF n] have
    shape: "case out of
              Returned v \<Rightarrow> v = Undefined \<and> (\<forall>c \<in> set log. \<exists>u. snd (snd c) = Returned u)
            | Threw z \<Rightarrow> log \<noteq> [] \<and> snd (snd (last log)) = Threw z \<and>
                (\<forall>c \<in> set (butlast log). \<exists>u. snd (snd c) = Returned u)"
    by (cases out) simp_all
  from all_e thr have e: "e = ?e" by force
  obtain z where out: "out = Threw z" and ne: "log \<noteq> []"
    and lastz: "snd (snd (last log)) = Threw z"
    and bl: "\<forall>c \<in> set (butlast log). \<exists>u. snd (snd c) = Returned u"
    using shape thr by (cases out) force+
  from ne have "log = butlast log @ [last log]" by simp
  then have "set log = set (butlast log) \<union> {last log}"
    by (metis Un_insert_right list.simps(15) set_append sup_bot.right_neutral list.set(1))
  with thr bl have l: "last log = (r, e, Threw y)" by force
  with lastz have "z = y" by simp
  have k: "entries w' = entries w1 @ [?e]" if "keeps_entries env"
    using notify_loop_keeps_entries[OF n that]
    by (simp add: entries_def record_entry_def)
  have st: "notify_loop env a e0 i w0 = Some (Threw y0, w0', [(observer_arrays w0 a ! i, e0, Threw y0)])"
    if "i < length (observer_arrays w0 a)" "env (observer_arrays w0 a ! i) e0 w0 = Some (Threw y0, w0')"
    using notify_loop_throw[where env=env, OF that] .
  from out \<open>z = y\<close> l bl e k st show ?thesis by blast
qed

text \<open>
  The theorem at a registry with observers 11, 10 and 12, of which 10 throws: the wrapped
  call throws what 10 threw, 11 and 10 were called, 12 was not, and the entry is recorded.
\<close>

theorem observer_throw_propagates_witness:
  "apply' riskyOperation (Obj 1) []
     (registerObserver 12 (registerObserver 10 (registerObserver 11 (new_ErrorRegistry () 0))))
     = Some (Threw (ErrorObj ''Error'' ''Something went wrong''),
             registerObserver 12 (registerObserver 10 (registerObserver 11 (new_ErrorRegistry () 0)))) \<and>
   keeps_entries failing_env \<and>
   map_option fst (wrapped failing_env (Prototype ''MockClass'') riskyOperation (Obj 1) []
     (registerObserver 12 (registerObserver 10 (registerObserver 11 (new_ErrorRegistry () 0)))))
     = Some (Threw (Str ''observer failed'')) \<and>
   map_option (map fst \<circ> snd \<circ> snd) (wrapped failing_env (Prototype ''MockClass'') riskyOperation (Obj 1) []
     (registerObserver 12 (registerObserver 10 (registerObserver 11 (new_ErrorRegistry () 0)))))
     = Some [11, 10] \<and>
   map_option (map error \<circ> entries \<circ> fst \<circ> snd)
     (wrapped failing_env (Prototype ''MockClass'') riskyOperation (Obj 1) []
     (registerObserver 12 (registerObserver 10 (registerObserver 11 (new_ErrorRegistry () 0)))))
     = Some [ErrorObj ''Error'' ''Something went wrong''] \<and>
   notify_loop failing_env 1 sample_entry 0 (registerObserver 10 (new_ErrorRegistry () 0))
     = Some (Threw (Str ''observer failed''), registerObserver 10 (new_ErrorRegistry () 0),
             [(10, sample_entry, Threw (Str ''observer failed''))])"
proof -
  let ?w = "registerObserver 12 (registerObserver 10 (registerObserver 11 (new_ErrorRegistry () 0)))"
  let ?x = "ErrorObj ''Error'' ''Something went wrong''"
  let ?e = "caught_entry ?x (Obj 1) (Prototype ''MockClass'') riskyOperation ?w"
  let ?log = "[(11, ?e, Returned Undefined), (10, ?e, Threw (Str ''observer failed''))]"
  let ?v = "registerObserver 10 (new_ErrorRegistry () 0)"
  have body: "apply' riskyOperation (Obj 1) [] ?w = Some (Threw ?x, ?w)"
    by (simp add: riskyOperation_def)
  have "\<exists>w'. wrapped failing_env (Prototype ''MockClass'') riskyOperation (Obj 1) [] ?w
      = Some (Threw (Str ''observer failed''), w', ?log)"
    by (simp add: scenario_defs failing_env_def caught_entry_def)
  then obtain w' where res: "wrapped failing_env (Prototype ''MockClass'') riskyOperation (Obj 1) [] ?w
      = Some (Threw (Str ''observer failed''), w', ?log)" by blast
  have thr: "(10, ?e, Threw (Str ''observer failed'')) \<in> set ?log" by simp
  have st: "0 < length (observer_arrays ?v 1) \<and>
     failing_env (observer_arrays ?v 1 ! 0) sample_entry ?v = Some (Threw (Str ''observer failed''), ?v)"
    by (simp add: registerObserver_def new_ErrorRegistry_def failing_env_def)
  from observer_throw_propagates[OF body res thr, of 0 ?v 1 sample_entry "Str ''observer failed''" ?v]
    failing_env_facts(1) st
  have "entries w' = entries ?w @ [?e]"
    and "notify_loop failing_env 1 sample_entry 0 ?v =
       Some (Threw (Str ''observer failed''), ?v, [(observer_arrays ?v 1 ! 0, sample_entry, Threw (Str ''observer failed''))])"
    by blast+
  moreover have "entries ?w = []" by (simp add: entries_def registerObserver_def new_ErrorRegistry_def)
  moreover have "observer_arrays ?v 1 ! 0 = 10" by (simp add: registerObserver_def new_ErrorRegistry_def)
  ultimately show ?thesis using body res failing_env_facts(1) by (simp add: caught_entry_def)
qed

text \<open>
  C8 as stated does not hold for every observer: with the one observer 70, which calls
  \<^verbatim>\<open>clearRegistry\<close> and then throws, the wrapped call throws what the observer threw, and
  the entry sequence is empty afterwards: the entry did not remain.
\<close>

theorem observer_clears_and_throws_counterexample:
  "apply' riskyOperation (Obj 1) [] (registerObserver 70 (new_ErrorRegistry () 0))
     = Some (Threw (ErrorObj ''Error'' ''Something went wrong''),
             registerObserver 70 (new_ErrorRegistry () 0)) \<and>
   map_option fst (wrapped clearing_env (Prototype ''MockClass'') riskyOperation (Obj 1) []
     (registerObserver 70 (new_ErrorRegistry () 0))) = Some (Threw (Str ''observer failed'')) \<and>
   map_option (map fst \<circ> snd \<circ> snd)
     (wrapped clearing_env (Prototype ''MockClass'') riskyOperation (Obj 1) []
     (registerObserver 70 (new_ErrorRegistry () 0))) = Some [70] \<and>
   map_option (entries \<circ> fst \<circ> snd)
     (wrapped clearing_env (Prototype ''MockClass'') riskyOperation (Obj 1) []
     (registerObserver 70 (new_ErrorRegistry () 0))) = Some []"
  by (simp add: scenario_defs clearing_env_def clearRegistry_def)

subsection \<open>Changing the observer list during a notification\<close>

text \<open>
  C9, as amended. The loop walks the array \<open>a\<close> and the observer at index \<open>i\<close> is running.
  It calls \<^verbatim>\<open>registerObserver(r)\<close> in a state \<open>w1\<close> in which the observer field still points
  to \<open>a\<close>; this pushes \<open>r\<close> on \<open>a\<close>. Let the state \<open>w2\<close> in which the observer returns
  still have that array, possibly extended, and let the rest of the loop end without an
  observer throwing, the caller's code respecting \<open>append_only\<close>. Then \<open>r\<close> is called for
  the same entry.
\<close>

theorem registerObserver_during_notification:
  assumes "append_only env" "errorRegistryObservers w1 = a" "i < length (observer_arrays w1 a)"
    "prefix (observer_arrays (registerObserver r w1) a) (observer_arrays w2 a)" "a < next_addr w2"
    "notify_loop env a e (Suc i) w2 = Some (Returned v, w', log)"
  shows "observer_arrays (registerObserver r w1) a = observer_arrays w1 a @ [r] \<and>
         r \<in> fst ` set log \<and> (\<forall>c \<in> set log. fst (snd c) = e)"
proof -
  have reg: "observer_arrays (registerObserver r w1) a = observer_arrays w1 a @ [r]"
    using registerObserver_live_array[of r w1] assms(2) by simp
  from notify_loop_visits[OF assms(6,1,5)]
  have m: "map fst log = drop (Suc i) (observer_arrays w' a)"
    and p: "prefix (observer_arrays w2 a) (observer_arrays w' a)" by simp_all
  from assms(4) p have "prefix (observer_arrays w1 a @ [r]) (observer_arrays w' a)"
    unfolding reg by (rule prefix_order.trans)
  then obtain zs where "observer_arrays w' a = observer_arrays w1 a @ [r] @ zs"
    by (auto simp: prefix_def)
  with assms(3) have "r \<in> set (drop (Suc i) (observer_arrays w' a))" by simp
  with m have "r \<in> set (map fst log)" by simp
  then have "r \<in> fst ` set log" by simp
  moreover from notify_loop_shape[OF assms(6)] have "\<forall>c \<in> set log. fst (snd c) = e" by simp
  ultimately show ?thesis using reg by blast
qed

text \<open>
  The theorem at a registry with the one observer 30, which registers observer 31:
  the rest of the loop calls 31, and the whole notification calls 30 and then 31.
\<close>

theorem registerObserver_during_notification_witness:
  "append_only registering_env \<and>
   errorRegistryObservers (registerObserver 30 (new_ErrorRegistry () 0)) = 1 \<and>
   0 < length (observer_arrays (registerObserver 30 (new_ErrorRegistry () 0)) 1) \<and>
   1 < next_addr (registerObserver 31 (registerObserver 30 (new_ErrorRegistry () 0))) \<and>
   map_option fst (notify_loop registering_env 1 sample_entry (Suc 0)
     (registerObserver 31 (registerObserver 30 (new_ErrorRegistry () 0)))) = Some (Returned Undefined) \<and>
   map_option (map fst \<circ> snd \<circ> snd) (notify_loop registering_env 1 sample_entry (Suc 0)
     (registerObserver 31 (registerObserver 30 (new_ErrorRegistry () 0)))) = Some [31] \<and>
   map_option (map fst \<circ> snd \<circ> snd) (notifyObservers registering_env sample_entry
     (registerObserver 30 (new_ErrorRegistry () 0))) = Some [30, 31]"
proof -
  let ?w = "registerObserver 30 (new_ErrorRegistry () 0)"
  let ?v = "registerObserver 31 ?w"
  let ?log = "[(31::nat, sample_entry, Returned Undefined)]"
  have p: "errorRegistryObservers ?w = 1" "0 < length (observer_arrays ?w 1)" "1 < next_addr ?v"
    by (simp_all add: registerObserver_def new_ErrorRegistry_def)
  have pre: "prefix (observer_arrays (registerObserver 31 ?w) 1) (observer_arrays ?v 1)" by simp
  have "\<exists>w'. notify_loop registering_env 1 sample_entry (Suc 0) ?v = Some (Returned Undefined, w', ?log)"
    by (simp add: notify_loop.simps registering_env_def registerObserver_def new_ErrorRegistry_def)
  then obtain w' where r: "notify_loop registering_env 1 sample_entry (Suc 0) ?v
      = Some (Returned Undefined, w', ?log)" by blast
  from registerObserver_during_notification[OF registering_env_facts p(1,2) pre p(3) r]
  have m: "(31::nat) \<in> fst ` set ?log" by blast
  have all: "map_option (map fst \<circ> snd \<circ> snd) (notifyObservers registering_env sample_entry ?w)
      = Some [30, 31]"
    by (simp add: notifyObservers_def notify_loop.simps registering_env_def registerObserver_def
        new_ErrorRegistry_def)
  from registering_env_facts p r all m show ?thesis by simp
qed

text \<open>
  C9 as stated does not hold whenever an observer registers another one. Observer 20
  first unregisters a callback (one that was never registered) and then registers
  observer 21. \<^verbatim>\<open>unregisterObserver\<close> has put a new array in the field, so 21 is pushed on
  the new array and not on the one the loop walks: the notification returns, only 20 was
  called, and 21 is in the observer list afterwards.
\<close>

theorem registerObserver_during_notification_counterexample:
  "observers (registerObserver 20 (new_ErrorRegistry () 0)) = [20] \<and>
   map_option fst (notifyObservers swapping_env sample_entry
     (registerObserver 20 (new_ErrorRegistry () 0))) = Some (Returned Undefined) \<and>
   map_option (map fst \<circ> snd \<circ> snd) (notifyObservers swapping_env sample_entry
     (registerObserver 20 (new_ErrorRegistry () 0))) = Some [20] \<and>
   map_option (observers \<circ> fst \<circ> snd) (notifyObservers swapping_env sample_entry
     (registerObserver 20 (new_ErrorRegistry () 0))) = Some [20, 21]"
  by (simp add: observers_def notifyObservers_def notify_loop.simps swapping_env_def
      registerObserver_def unregisterObserver_def new_ErrorRegistry_def)

text \<open>
  C10, as amended. The loop walks the array \<open>a\<close> and the observer at index \<open>i\<close> is
  running. It calls \<^verbatim>\<open>unregisterObserver(r)\<close>. The array \<open>a\<close> is not changed by the call,
  and \<open>r\<close> is not in the observer list of the registry after it. If the rest of the loop
  ends without an observer throwing, the caller's code respecting \<open>append_only\<close>, then
  every observer that was in \<open>a\<close> after index \<open>i\<close> is called for the same entry, in order,
  and so is \<open>r\<close> if it was among them.
\<close>

theorem unregisterObserver_during_notification:
  assumes "append_only env" "a < next_addr w1"
    "notify_loop env a e (Suc i) (unregisterObserver r w1) = Some (Returned v, w', log)"
  shows "observer_arrays (unregisterObserver r w1) a = observer_arrays w1 a \<and>
         prefix (drop (Suc i) (observer_arrays w1 a)) (map fst log) \<and>
         (r \<in> set (drop (Suc i) (observer_arrays w1 a)) \<longrightarrow> r \<in> fst ` set log) \<and>
         (\<forall>c \<in> set log. fst (snd c) = e) \<and>
         r \<notin> set (observers (unregisterObserver r w1))"
proof -
  have old: "observer_arrays (unregisterObserver r w1) a = observer_arrays w1 a"
    using assms(2) by (rule unregisterObserver_old_array)
  have a': "a < next_addr (unregisterObserver r w1)"
    using assms(2) by (simp add: unregisterObserver_def)
  from notify_loop_visits[OF assms(3,1) a']
  have m: "map fst log = drop (Suc i) (observer_arrays w' a)"
    and p: "prefix (observer_arrays w1 a) (observer_arrays w' a)" by (simp_all add: old)
  from prefix_drop[OF p, of "Suc i"] m
  have pre: "prefix (drop (Suc i) (observer_arrays w1 a)) (map fst log)" by simp
  then have mem: "r \<in> fst ` set log" if "r \<in> set (drop (Suc i) (observer_arrays w1 a))"
    using that set_mono_prefix by fastforce
  from notify_loop_shape[OF assms(3)] have all_e: "\<forall>c \<in> set log. fst (snd c) = e" by simp
  have gone: "r \<notin> set (observers (unregisterObserver r w1))"
    by (simp add: observers_unregisterObserver)
  from old pre mem all_e gone show ?thesis by blast
qed

text \<open>
  The theorem at a registry with observers 50 and 51, where 50 unregisters 51: the rest
  of the loop still calls 51, the whole notification calls 50 and then 51, and the
  observer list afterwards is 50 alone.
\<close>

theorem unregisterObserver_during_notification_witness:
  "append_only detaching_env \<and>
   1 < next_addr (registerObserver 51 (registerObserver 50 (new_ErrorRegistry () 0))) \<and>
   observer_arrays (registerObserver 51 (registerObserver 50 (new_ErrorRegistry () 0))) 1 = [50, 51] \<and>
   map_option fst (notify_loop detaching_env 1 sample_entry (Suc 0)
     (unregisterObserver 51 (registerObserver 51 (registerObserver 50 (new_ErrorRegistry () 0)))))
     = Some (Returned Undefined) \<and>
   map_option (map fst \<circ> snd \<circ> snd) (notify_loop detaching_env 1 sample_entry (Suc 0)
     (unregisterObserver 51 (registerObserver 51 (registerObserver 50 (new_ErrorRegistry () 0)))))
     = Some [51] \<and>
   observers (unregisterObserver 51 (registerObserver 51 (registerObserver 50 (new_ErrorRegistry () 0))))
     = [50] \<and>
   map_option (map fst \<circ> snd \<circ> snd) (notifyObservers detaching_env sample_entry
     (registerObserver 51 (registerObserver 50 (new_ErrorRegistry () 0)))) = Some [50, 51] \<and>
   map_option (observers \<circ> fst \<circ> snd) (notifyObservers detaching_env sample_entry
     (registerObserver 51 (registerObserver 50 (new_ErrorRegistry () 0)))) = Some [50]"
proof -
  let ?w = "registerObserver 51 (registerObserver 50 (new_ErrorRegistry () 0))"
  let ?log = "[(51::nat, sample_entry, Returned Undefined)]"
  have p: "1 < next_addr ?w" "observer_arrays ?w 1 = [50, 51]"
    by (simp_all add: registerObserver_def new_ErrorRegistry_def)
  have "\<exists>w'. notify_loop detaching_env 1 sample_entry (Suc 0) (unregisterObserver 51 ?w)
      = Some (Returned Undefined, w', ?log)"
    by (simp add: notify_loop.simps detaching_env_def registerObserver_def unregisterObserver_def
        new_ErrorRegistry_def)
  then obtain w' where r: "notify_loop detaching_env 1 sample_entry (Suc 0) (unregisterObserver 51 ?w)
      = Some (Returned Undefined, w', ?log)" by blast
  from unregisterObserver_during_notification[OF detaching_env_facts p(1) r] p(2)
  have "(51::nat) \<in> fst ` set ?log" and g: "51 \<notin> set (observers (unregisterObserver 51 ?w))" by simp_all
  have o: "observers (unregisterObserver 51 ?w) = [50]"
    by (simp add: observers_def registerObserver_def unregisterObserver_def new_ErrorRegistry_def)
  have all: "map_option (map fst \<circ> snd \<circ> snd) (notifyObservers detaching_env sample_entry ?w)
      = Some [50, 51]"
    "map_option (observers \<circ> fst \<circ> snd) (notifyObservers detaching_env sample_entry ?w) = Some [50]"
    by (simp_all add: observers_def notifyObservers_def notify_loop.simps detaching_env_def
        registerObserver_def unregisterObserver_def new_ErrorRegistry_def)
  from detaching_env_facts p r o all g show ?thesis by simp
qed

text \<open>
  C10 as stated does not hold whenever an observer unregisters one not yet notified.
  With observers 40, 41 and 42, where 40 unregisters 42 and 41 throws, the notification
  ends at 41: observer 42 was removed before it was notified and is not called for this
  entry.
\<close>

theorem unregisterObserver_during_notification_counterexample:
  "observers (registerObserver 42 (registerObserver 41 (registerObserver 40 (new_ErrorRegistry () 0))))
     = [40, 41, 42] \<and>
   map_option fst (notifyObservers unregistering_env sample_entry
     (registerObserver 42 (registerObserver 41 (registerObserver 40 (new_ErrorRegistry () 0)))))
     = Some (Threw (Str ''observer failed'')) \<and>
   map_option (map fst \<circ> snd \<circ> snd) (notifyObservers unregistering_env sample_entry
     (registerObserver 42 (registerObserver 41 (registerObserver 40 (new_ErrorRegistry () 0)))))
     = Some [40, 41] \<and>
   map_option (observers \<circ> fst \<circ> snd) (notifyObservers unregistering_env sample_entry
     (registerObserver 42 (registerObserver 41 (registerObserver 40 (new_ErrorRegistry () 0)))))
     = Some [40, 41]"
  by (simp add: observers_def notifyObservers_def notify_loop.simps unregistering_env_def
      registerObserver_def unregisterObserver_def new_ErrorRegistry_def)

end
